theory Spec2Isabelle
  imports Main "HOL-Library.Word"
begin

section \<open>The composite demo (composite.cpp): data model\<close>

text \<open>
  Objects live in a store and are named by their addresses: \<open>std::unique_ptr<Graphic>\<close>
  and \<open>Graphic*\<close> are both addresses here, and \<open>remove\<close> compares them as such.
  A pointer is taken to be non-null; an address that holds no object is a dangling one.
  \<open>int\<close> is the 32-bit two's complement integer, printed through \<open>sint\<close>.
\<close>

type_synonym addr = nat
type_synonym int32 = "32 word"

text \<open>The leaf classes: \<open>Dot\<close> with its fields x and y, and \<open>Circle\<close>, which derives
  from \<open>Dot\<close> and adds radius.\<close>

datatype leaf = Dot int32 int32 | Circle int32 int32 int32

text \<open>A \<open>Graphic\<close> is a \<open>Leaf\<close> or a \<open>Compound\<close>; the one concrete compound class is
  \<open>CompoundGraphic\<close>, whose state is the list \<open>children\<close> of owning pointers.\<close>

datatype graphic = Leaf leaf | CompoundGraphic "addr list"

type_synonym heap = "addr \<rightharpoonup> graphic"

text \<open>\<open>std::variant<Leaf*, Compound*>\<close>, the result of \<open>Type()\<close>.\<close>

datatype kind = LeafPtr addr | CompoundPtr addr

text \<open>
  A call either returns (\<open>Done\<close>, with the returned value and the state it leaves), has
  not returned within the given recursion depth (\<open>OutOfFuel\<close>), or has no defined meaning
  in C++ (\<open>UndefinedBehaviour\<close>: a dangling pointer is dereferenced or deleted, or a
  member of \<open>Compound\<close> is called on an object that is not one). A \<open>void\<close> method
  returns \<open>()\<close>. The code throws nothing and returns no error code, so there is no
  outcome for a reported error.
\<close>

datatype 'a outcome = Done 'a | OutOfFuel | UndefinedBehaviour

fun and_then :: "('r \<times> 's) outcome \<Rightarrow> ('r \<Rightarrow> 's \<Rightarrow> 'q outcome) \<Rightarrow> 'q outcome" where
  "and_then (Done (r, s)) k = k r s"
| "and_then OutOfFuel k = OutOfFuel"
| "and_then UndefinedBehaviour k = UndefinedBehaviour"

text \<open>The range-based \<open>for\<close> loop over a list, with a \<open>void\<close> body that works on the
  state \<open>s\<close>.\<close>

fun foreach :: "'a list \<Rightarrow> ('a \<Rightarrow> 's \<Rightarrow> (unit \<times> 's) outcome) \<Rightarrow> 's \<Rightarrow> (unit \<times> 's) outcome" where
  "foreach [] body s = Done ((), s)"
| "foreach (c # cs) body s = and_then (body c s) (\<lambda>_. foreach cs body)"

subsection \<open>Printing an int on a stream\<close>

fun show_nat :: "nat \<Rightarrow> string" where
  "show_nat n = (if n < 10 then [''0123456789'' ! n]
                 else show_nat (n div 10) @ [''0123456789'' ! (n mod 10)])"

declare show_nat.simps [simp del]

definition show_int :: "int \<Rightarrow> string" where
  "show_int i = (if i < 0 then ''-'' @ show_nat (nat (- i)) else show_nat (nat i))"

section \<open>The methods\<close>

subsection \<open>Type\<close>

text \<open>\<open>Leaf::Type\<close> and \<open>Compound::Type\<close> both return \<open>this\<close>, as the alternative of
  their own class.\<close>

definition Type :: "addr \<Rightarrow> heap \<Rightarrow> (kind \<times> heap) outcome" where
  "Type this h =
     (case h this of
        None \<Rightarrow> UndefinedBehaviour
      | Some (Leaf _) \<Rightarrow> Done (LeafPtr this, h)
      | Some (CompoundGraphic _) \<Rightarrow> Done (CompoundPtr this, h))"

subsection \<open>move\<close>

text \<open>\<open>Dot::move\<close> assigns its arguments to the fields x and y; \<open>Circle\<close> inherits it.\<close>

fun Dot_move :: "int32 \<Rightarrow> int32 \<Rightarrow> leaf \<Rightarrow> leaf" where
  "Dot_move x y (Dot _ _) = Dot x y"
| "Dot_move x y (Circle _ _ radius) = Circle x y radius"

text \<open>The virtual call \<open>this->move(x, y)\<close>. \<open>CompoundGraphic::move\<close> calls \<open>move\<close> on each
  child in list order; no \<open>move\<close> changes a list of children, so the loop runs over the
  list as it was read.\<close>

fun move :: "nat \<Rightarrow> addr \<Rightarrow> int32 \<Rightarrow> int32 \<Rightarrow> heap \<Rightarrow> (unit \<times> heap) outcome" where
  "move 0 this x y h = OutOfFuel"
| "move (Suc fuel) this x y h =
     (case h this of
        None \<Rightarrow> UndefinedBehaviour
      | Some (Leaf l) \<Rightarrow> Done ((), h(this \<mapsto> Leaf (Dot_move x y l)))
      | Some (CompoundGraphic children) \<Rightarrow> foreach children (\<lambda>c. move fuel c x y) h)"

subsection \<open>draw\<close>

text \<open>\<open>Dot::draw\<close> and \<open>Circle::draw\<close>: the text written to \<open>std::cout\<close>. \<open>Circle::draw\<close>
  does not print the radius.\<close>

fun leaf_draw :: "leaf \<Rightarrow> string" where
  "leaf_draw (Dot x y) =
     ''Drawing Dot, x: '' @ show_int (sint x) @ '', y: '' @ show_int (sint y) @ ''\<newline>''"
| "leaf_draw (Circle x y radius) =
     ''Drawing Circle, x: '' @ show_int (sint x) @ '', y: '' @ show_int (sint y) @ ''\<newline>''"

text \<open>The virtual call \<open>this->draw()\<close>; the state it works on is the text written to
  \<open>std::cout\<close> so far. \<open>CompoundGraphic::draw\<close> draws each child in list order.\<close>

fun draw :: "nat \<Rightarrow> addr \<Rightarrow> heap \<Rightarrow> string \<Rightarrow> (unit \<times> string) outcome" where
  "draw 0 this h cout = OutOfFuel"
| "draw (Suc fuel) this h cout =
     (case h this of
        None \<Rightarrow> UndefinedBehaviour
      | Some (Leaf l) \<Rightarrow> Done ((), cout @ leaf_draw l)
      | Some (CompoundGraphic children) \<Rightarrow> foreach children (\<lambda>c. draw fuel c h) cout)"

subsection \<open>Destruction\<close>

text \<open>\<open>delete this\<close> through the virtual destructor: the destructor of \<open>Compound\<close>
  destroys the list \<open>children\<close>, front to back, and each \<open>unique_ptr\<close> in it deletes its
  object; then the storage of the object itself is released.\<close>

fun destroy :: "nat \<Rightarrow> addr \<Rightarrow> heap \<Rightarrow> (unit \<times> heap) outcome" where
  "destroy 0 this h = OutOfFuel"
| "destroy (Suc fuel) this h =
     (case h this of
        None \<Rightarrow> UndefinedBehaviour
      | Some (Leaf _) \<Rightarrow> Done ((), h(this := None))
      | Some (CompoundGraphic children) \<Rightarrow>
          and_then (foreach children (destroy fuel) h) (\<lambda>_ h'. Done ((), h'(this := None))))"

subsection \<open>add and remove\<close>

text \<open>\<open>CompoundGraphic::add\<close>: \<open>children.push_back(std::move(child))\<close>. It returns
  \<open>void\<close>. The receiver is a compound by its static type; only an unchecked cast
  makes the call reach another object, and that has no defined meaning. The same holds
  for \<open>remove\<close>.\<close>

definition CompoundGraphic_add :: "addr \<Rightarrow> addr \<Rightarrow> heap \<Rightarrow> (unit \<times> heap) outcome" where
  "CompoundGraphic_add this child h =
     (case h this of
        Some (CompoundGraphic children) \<Rightarrow>
          Done ((), h(this \<mapsto> CompoundGraphic (children @ [child])))
      | _ \<Rightarrow> UndefinedBehaviour)"

text \<open>The loop of \<open>CompoundGraphic::remove\<close>: the list without the first element whose
  pointer equals \<open>child\<close>, or \<open>None\<close> when the loop ends without finding one.\<close>

fun erase_first :: "addr list \<Rightarrow> addr \<Rightarrow> addr list option" where
  "erase_first [] child = None"
| "erase_first (c # cs) child =
     (if c = child then Some cs else map_option ((#) c) (erase_first cs child))"

text \<open>\<open>CompoundGraphic::remove\<close>: \<open>children.erase(it)\<close> takes the element out of the list
  and destroys it, which deletes the object it owns.\<close>

definition CompoundGraphic_remove :: "nat \<Rightarrow> addr \<Rightarrow> addr \<Rightarrow> heap \<Rightarrow> (unit \<times> heap) outcome" where
  "CompoundGraphic_remove fuel this child h =
     (case h this of
        Some (CompoundGraphic children) \<Rightarrow>
          (case erase_first children child of
             None \<Rightarrow> Done ((), h)
           | Some children' \<Rightarrow> destroy fuel child (h(this \<mapsto> CompoundGraphic children')))
      | _ \<Rightarrow> UndefinedBehaviour)"

subsection \<open>main\<close>

text \<open>
  \<open>main\<close>, from the empty store. \<open>root\<close>, \<open>d\<close> and \<open>c\<close> are the addresses of the local
  \<open>root\<close>, of the \<open>Dot\<close> and of the \<open>Circle\<close>, as the implementation chooses them. The
  result is the returned value with the final store and the text on \<open>std::cout\<close>; at
  the closing brace \<open>root\<close> is destroyed.
\<close>

definition main :: "nat \<Rightarrow> addr \<Rightarrow> addr \<Rightarrow> addr \<Rightarrow> (int32 \<times> heap \<times> string) outcome" where
  "main fuel root d c =
     (let h0 = Map.empty(root \<mapsto> CompoundGraphic []);
          h1 = h0(d \<mapsto> Leaf (Dot 10 20));
          raw_d = d
      in and_then (CompoundGraphic_add root d h1) (\<lambda>_ h2.
         and_then (CompoundGraphic_add root c (h2(c \<mapsto> Leaf (Circle 5 5 3)))) (\<lambda>_ h3.
         and_then (draw fuel root h3 ''Before draw:\<newline>'') (\<lambda>_ cout1.
         and_then (CompoundGraphic_remove fuel root raw_d h3) (\<lambda>_ h4.
         and_then (draw fuel root h4 (cout1 @ ''After removal:\<newline>'')) (\<lambda>_ cout2.
         and_then (destroy fuel root h4) (\<lambda>_ h5.
         Done (0, h5, cout2))))))))"

section \<open>Trees in the store\<close>

text \<open>The objects under an address, in the order a traversal meets them; \<open>None\<close> when
  the traversal meets a dangling pointer or goes deeper than \<open>fuel\<close> (as it does on a
  cycle, for every \<open>fuel\<close>).\<close>

fun nodes :: "nat \<Rightarrow> heap \<Rightarrow> addr \<Rightarrow> addr list option" where
  "nodes 0 h a = None"
| "nodes (Suc fuel) h a =
     (case h a of
        None \<Rightarrow> None
      | Some (Leaf _) \<Rightarrow> Some [a]
      | Some (CompoundGraphic children) \<Rightarrow>
          map_option (\<lambda>ns. a # concat ns) (those (map (nodes fuel h) children)))"

text \<open>What \<open>unique_ptr\<close> ownership is meant to keep: below \<open>a\<close> no object is met twice,
  so each has one owner and none contains itself.\<close>

definition tree :: "nat \<Rightarrow> heap \<Rightarrow> addr \<Rightarrow> bool" where
  "tree fuel h a = (case nodes fuel h a of None \<Rightarrow> False | Some ns \<Rightarrow> distinct ns)"

text \<open>The position a leaf holds.\<close>

fun position :: "graphic \<Rightarrow> (int32 \<times> int32) option" where
  "position (Leaf (Dot x y)) = Some (x, y)"
| "position (Leaf (Circle x y radius)) = Some (x, y)"
| "position (CompoundGraphic children) = None"

section \<open>What the traversals keep and change\<close>

text \<open>The class of an object and, for a compound, its children: what no \<open>move\<close>
  changes.\<close>

fun shape :: "graphic \<Rightarrow> addr list option" where
  "shape (Leaf l) = None"
| "shape (CompoundGraphic children) = Some children"

definition shape_of :: "heap \<Rightarrow> addr \<Rightarrow> addr list option option" where
  "shape_of h a = map_option shape (h a)"

text \<open>An object after \<open>move x y\<close> has reached it, and the store after it has reached the
  objects of \<open>S\<close>.\<close>

fun relocate :: "int32 \<Rightarrow> int32 \<Rightarrow> graphic \<Rightarrow> graphic" where
  "relocate x y (Leaf l) = Leaf (Dot_move x y l)"
| "relocate x y (CompoundGraphic children) = CompoundGraphic children"

definition moved :: "int32 \<Rightarrow> int32 \<Rightarrow> addr set \<Rightarrow> heap \<Rightarrow> heap" where
  "moved x y S h = (\<lambda>b. if b \<in> S then map_option (relocate x y) (h b) else h b)"

text \<open>The store after the objects of \<open>S\<close> have been deleted.\<close>

definition released :: "addr set \<Rightarrow> heap \<Rightarrow> heap" where
  "released S h = (\<lambda>b. if b \<in> S then None else h b)"

text \<open>\<open>b\<close> is one of the children of the compound at \<open>a\<close>.\<close>

definition has_child :: "heap \<Rightarrow> addr \<Rightarrow> addr \<Rightarrow> bool" where
  "has_child h a b = (case h a of Some (CompoundGraphic children) \<Rightarrow> b \<in> set children | _ \<Rightarrow> False)"

section \<open>Sequencing and loops\<close>

lemma and_then_Done_iff:
  "and_then m k = Done r \<longleftrightarrow> (\<exists>a s. m = Done (a, s) \<and> k a s = Done r)"
  by (cases m) auto

lemma foreach_append:
  "foreach (xs @ ys) body s = and_then (foreach xs body s) (\<lambda>_. foreach ys body)"
proof (induction xs arbitrary: s)
  case Nil
  show ?case by simp
next
  case (Cons x xs)
  show ?case
  proof (cases "body x s")
    case (Done r)
    then show ?thesis using Cons.IH by (cases r) simp
  qed simp_all
qed

lemma foreach_invariant:
  assumes "foreach cs body s = Done ((), s')"
    and "P s"
    and "\<And>c t t'. c \<in> set cs \<Longrightarrow> P t \<Longrightarrow> body c t = Done ((), t') \<Longrightarrow> P t'"
  shows "P s'"
  using assms
proof (induction cs arbitrary: s)
  case Nil
  then show ?case by simp
next
  case (Cons c cs)
  from Cons.prems(1) obtain t where t: "body c s = Done ((), t)"
    and rest: "foreach cs body t = Done ((), s')"
    by (auto simp: and_then_Done_iff)
  have "P t" using Cons.prems(3) [of c s t] Cons.prems(2) t by simp
  with rest Cons.prems(3) show ?case by (intro Cons.IH [of t]) auto
qed

lemma foreach_Done_elem:
  assumes "foreach cs body s = Done r"
    and "P s"
    and "\<And>c t t'. c \<in> set cs \<Longrightarrow> P t \<Longrightarrow> body c t = Done ((), t') \<Longrightarrow> P t'"
    and "b \<in> set cs"
  shows "\<exists>t t'. P t \<and> body b t = Done ((), t')"
  using assms
proof (induction cs arbitrary: s)
  case Nil
  then show ?case by simp
next
  case (Cons c cs)
  from Cons.prems(1) obtain t where t: "body c s = Done ((), t)"
    and rest: "foreach cs body t = Done r"
    by (auto simp: and_then_Done_iff)
  show ?case
  proof (cases "b = c")
    case True
    with t Cons.prems(2) show ?thesis by blast
  next
    case False
    with Cons.prems(4) have b: "b \<in> set cs" by simp
    have "P t" using Cons.prems(3) [of c s t] Cons.prems(2) t by simp
    with rest b Cons.prems(3) show ?thesis by (intro Cons.IH [of t]) auto
  qed
qed

lemma those_map_Cons:
  "those (map f (c # cs)) = Some xss \<longleftrightarrow>
     (\<exists>xs xss'. f c = Some xs \<and> those (map f cs) = Some xss' \<and> xss = xs # xss')"
  by (auto split: option.splits)

lemma those_map_member:
  "those (map f cs) = Some xss \<Longrightarrow> c \<in> set cs \<Longrightarrow> \<exists>xs. f c = Some xs \<and> xs \<in> set xss"
proof (induction cs arbitrary: xss)
  case Nil
  then show ?case by simp
next
  case (Cons k cs)
  then show ?case by (auto simp: those_map_Cons simp del: those.simps list.map)
qed

lemma those_map_cong:
  "those (map f cs) = Some xss \<Longrightarrow> (\<And>c xs. c \<in> set cs \<Longrightarrow> f c = Some xs \<Longrightarrow> g c = Some xs)
     \<Longrightarrow> those (map g cs) = Some xss"
proof (induction cs arbitrary: xss)
  case Nil
  then show ?case by simp
next
  case (Cons k cs)
  from Cons.prems(1) obtain xs xss' where k: "f k = Some xs"
    and rest: "those (map f cs) = Some xss'" and xss: "xss = xs # xss'"
    unfolding those_map_Cons by blast
  have "g k = Some xs" using Cons.prems(2) k by simp
  moreover have "those (map g cs) = Some xss'"
    using rest Cons.prems(2) by (intro Cons.IH) auto
  ultimately show ?case unfolding those_map_Cons using xss by blast
qed

section \<open>nodes\<close>

lemma nodes_Suc_Some:
  "nodes (Suc n) h a = Some ns \<longleftrightarrow>
     (\<exists>l. h a = Some (Leaf l) \<and> ns = [a]) \<or>
     (\<exists>cs xss. h a = Some (CompoundGraphic cs) \<and> those (map (nodes n h) cs) = Some xss
        \<and> ns = a # concat xss)"
  by (auto split: option.splits graphic.splits)

lemma nodes_SomeE:
  assumes "nodes n h a = Some ns"
  obtains m where "n = Suc m"
  using assms by (cases n) auto

lemma nodes_hd: "nodes n h a = Some ns \<Longrightarrow> \<exists>ms. ns = a # ms"
  by (cases n) (auto split: option.splits graphic.splits)

lemma nodes_self: "nodes n h a = Some ns \<Longrightarrow> a \<in> set ns"
  using nodes_hd by fastforce

lemma nodes_agree:
  "nodes n h a = Some ns \<Longrightarrow> (\<And>b. b \<in> set ns \<Longrightarrow> shape_of h' b = shape_of h b)
     \<Longrightarrow> nodes n h' a = Some ns"
proof (induction n arbitrary: a ns)
  case 0
  then show ?case by simp
next
  case (Suc n)
  have a: "shape_of h' a = shape_of h a"
    using Suc.prems nodes_self by blast
  from Suc.prems(1) consider
    (leaf) l where "h a = Some (Leaf l)" "ns = [a]"
  | (comp) cs xss where "h a = Some (CompoundGraphic cs)"
      "those (map (nodes n h) cs) = Some xss" "ns = a # concat xss"
    unfolding nodes_Suc_Some by blast
  then show ?case
  proof cases
    case leaf
    with a obtain l' where "h' a = Some (Leaf l')"
      by (cases "h' a"; cases "the (h' a)") (auto simp: shape_of_def)
    with leaf show ?thesis by simp
  next
    case comp
    with a have h'a: "h' a = Some (CompoundGraphic cs)"
      by (cases "h' a"; cases "the (h' a)") (auto simp: shape_of_def)
    have "those (map (nodes n h') cs) = Some xss"
    proof (rule those_map_cong [OF comp(2)])
      fix c xs assume c: "c \<in> set cs" and xs: "nodes n h c = Some xs"
      from those_map_member [OF comp(2) c] xs have "xs \<in> set xss" by auto
      then have "set xs \<subseteq> set ns" using comp(3) by auto
      then show "nodes n h' c = Some xs"
        using Suc.IH [OF xs] Suc.prems(2) by blast
    qed
    with h'a comp(3) show ?thesis unfolding nodes_Suc_Some by blast
  qed
qed

lemma nodes_mono: "nodes n h a = Some ns \<Longrightarrow> nodes (Suc n) h a = Some ns"
proof (induction n arbitrary: a ns)
  case 0
  then show ?case by simp
next
  case (Suc n)
  from Suc.prems consider
    (leaf) l where "h a = Some (Leaf l)" "ns = [a]"
  | (comp) cs xss where "h a = Some (CompoundGraphic cs)"
      "those (map (nodes n h) cs) = Some xss" "ns = a # concat xss"
    unfolding nodes_Suc_Some by blast
  then show ?case
  proof cases
    case leaf
    then show ?thesis by simp
  next
    case comp
    have "those (map (nodes (Suc n) h) cs) = Some xss"
      by (rule those_map_cong [OF comp(2)]) (rule Suc.IH)
    with comp show ?thesis unfolding nodes_Suc_Some [of "Suc n"] by blast
  qed
qed

section \<open>move\<close>

lemma shape_relocate [simp]: "shape (relocate x y g) = shape g"
  by (cases g) simp_all

lemma Dot_move_idem [simp]: "Dot_move x y (Dot_move x' y' l) = Dot_move x y l"
  by (cases l) simp_all

lemma relocate_idem [simp]: "relocate x y (relocate x y g) = relocate x y g"
  by (cases g) simp_all

lemma shape_of_moved [simp]: "shape_of (moved x y S h) b = shape_of h b"
  by (simp add: shape_of_def moved_def option.map_comp comp_def)

lemma moved_empty [simp]: "moved x y {} h = h"
  by (simp add: moved_def)

lemma moved_moved [simp]: "moved x y T (moved x y S h) = moved x y (S \<union> T) h"
  by (rule ext) (auto simp: moved_def option.map_comp comp_def)

lemma moved_compound:
  "h a = Some (CompoundGraphic cs) \<Longrightarrow> moved x y (insert a S) h = moved x y S h"
  by (rule ext) (auto simp: moved_def)

lemma moved_leaf:
  "h a = Some (Leaf l) \<Longrightarrow> h(a \<mapsto> Leaf (Dot_move x y l)) = moved x y {a} h"
  by (rule ext) (auto simp: moved_def)

lemma shape_of_upd_leaf:
  "h a = Some (Leaf l) \<Longrightarrow> shape_of (h(a \<mapsto> Leaf l')) b = shape_of h b"
  by (simp add: shape_of_def)

text \<open>No \<open>move\<close> that returns has changed the class or the children of any object.\<close>

lemma move_shape:
  "move n a x y h = Done ((), h') \<Longrightarrow> shape_of h' b = shape_of h b"
proof (induction n arbitrary: a h h')
  case 0
  then show ?case by simp
next
  case (Suc n)
  show ?case
  proof (cases "h a")
    case None
    with Suc.prems show ?thesis by simp
  next
    case (Some g)
    show ?thesis
    proof (cases g)
      case (Leaf l)
      with Some Suc.prems show ?thesis by (auto simp: shape_of_def)
    next
      case (CompoundGraphic cs)
      with Some Suc.prems have loop: "foreach cs (\<lambda>c. move n c x y) h = Done ((), h')"
        by simp
      show ?thesis
        by (rule foreach_invariant [OF loop, where P = "\<lambda>t. shape_of t b = shape_of h b"])
          (auto dest: Suc.IH)
    qed
  qed
qed

lemma move_children_nodes:
  assumes IH: "\<And>a ns h. nodes n h a = Some ns \<Longrightarrow> move n a x y h = Done ((), moved x y (set ns) h)"
  shows "those (map (nodes n h) cs) = Some xss \<Longrightarrow>
    foreach cs (\<lambda>c. move n c x y) (moved x y S h) = Done ((), moved x y (S \<union> set (concat xss)) h)"
proof (induction cs arbitrary: xss S)
  case Nil
  then show ?case by simp
next
  case (Cons c cs)
  from Cons.prems obtain xs xss' where c: "nodes n h c = Some xs"
    and rest: "those (map (nodes n h) cs) = Some xss'" and xss: "xss = xs # xss'"
    unfolding those_map_Cons by blast
  have "nodes n (moved x y S h) c = Some xs"
    by (rule nodes_agree [OF c]) simp
  then have "move n c x y (moved x y S h) = Done ((), moved x y (S \<union> set xs) h)"
    using IH by simp
  then show ?case
    using Cons.IH [OF rest, of "S \<union> set xs"] xss by (simp add: Un_assoc)
qed

text \<open>On a finite structure \<open>move\<close> returns, having reached exactly the objects below
  its receiver.\<close>

lemma move_nodes:
  "nodes n h a = Some ns \<Longrightarrow> move n a x y h = Done ((), moved x y (set ns) h)"
proof (induction n arbitrary: a ns h)
  case 0
  then show ?case by simp
next
  case (Suc n)
  from Suc.prems consider
    (leaf) l where "h a = Some (Leaf l)" "ns = [a]"
  | (comp) cs xss where "h a = Some (CompoundGraphic cs)"
      "those (map (nodes n h) cs) = Some xss" "ns = a # concat xss"
    unfolding nodes_Suc_Some by blast
  then show ?case
  proof cases
    case leaf
    then show ?thesis by (simp add: moved_leaf)
  next
    case comp
    have "foreach cs (\<lambda>c. move n c x y) (moved x y {} h)
        = Done ((), moved x y ({} \<union> set (concat xss)) h)"
      by (rule move_children_nodes [OF Suc.IH comp(2)])
    with comp show ?thesis by (simp add: moved_compound)
  qed
qed

section \<open>draw\<close>

lemma foreach_draw_concat:
  "list_all2 (\<lambda>c s. \<forall>out. draw n c h out = Done ((), out @ s)) cs ss \<Longrightarrow>
     foreach cs (\<lambda>c. draw n c h) out = Done ((), out @ concat ss)"
proof (induction cs ss arbitrary: out rule: list_all2_induct)
  case Nil
  show ?case by simp
next
  case (Cons c s cs ss)
  then show ?case by simp
qed

lemma list_all2_choice:
  "(\<And>c. c \<in> set cs \<Longrightarrow> \<exists>s. P c s) \<Longrightarrow> \<exists>ss. list_all2 P cs ss"
proof (induction cs)
  case Nil
  show ?case by simp
next
  case (Cons c cs)
  then obtain s ss where "P c s" "list_all2 P cs ss" by (metis list.set_intros)
  then have "list_all2 P (c # cs) (s # ss)" by simp
  then show ?case ..
qed

text \<open>On a finite structure \<open>draw\<close> returns, and what it writes does not depend on what
  was written before.\<close>

lemma draw_nodes:
  "nodes n h a = Some ns \<Longrightarrow> \<exists>s. \<forall>out. draw n a h out = Done ((), out @ s)"
proof (induction n arbitrary: a ns)
  case 0
  then show ?case by simp
next
  case (Suc n)
  from Suc.prems consider
    (leaf) l where "h a = Some (Leaf l)" "ns = [a]"
  | (comp) cs xss where "h a = Some (CompoundGraphic cs)"
      "those (map (nodes n h) cs) = Some xss" "ns = a # concat xss"
    unfolding nodes_Suc_Some by blast
  then show ?case
  proof cases
    case leaf
    then show ?thesis by simp
  next
    case comp
    have "\<exists>ss. list_all2 (\<lambda>c s. \<forall>out. draw n c h out = Done ((), out @ s)) cs ss"
    proof (rule list_all2_choice)
      fix c assume "c \<in> set cs"
      from those_map_member [OF comp(2) this] obtain xs where "nodes n h c = Some xs"
        by blast
      then show "\<exists>s. \<forall>out. draw n c h out = Done ((), out @ s)" by (rule Suc.IH)
    qed
    then obtain ss where "list_all2 (\<lambda>c s. \<forall>out. draw n c h out = Done ((), out @ s)) cs ss" ..
    then have "\<forall>out. foreach cs (\<lambda>c. draw n c h) out = Done ((), out @ concat ss)"
      by (simp add: foreach_draw_concat)
    with comp(1) show ?thesis by auto
  qed
qed

lemma draw_children_nodes:
  assumes "nodes (Suc n) h c = Some ns" and "h c = Some (CompoundGraphic cs)"
  shows "\<exists>ds. list_all2 (\<lambda>k d. draw n k h [] = Done ((), d)) cs ds \<and>
              draw (Suc n) c h out = Done ((), out @ concat ds)"
proof -
  from assms obtain xss where xss: "those (map (nodes n h) cs) = Some xss"
    unfolding nodes_Suc_Some by auto
  have "\<exists>ss. list_all2 (\<lambda>c s. \<forall>out. draw n c h out = Done ((), out @ s)) cs ss"
  proof (rule list_all2_choice)
    fix k assume "k \<in> set cs"
    from those_map_member [OF xss this] obtain xs where "nodes n h k = Some xs"
      by blast
    then show "\<exists>s. \<forall>out. draw n k h out = Done ((), out @ s)" by (rule draw_nodes)
  qed
  then obtain ds where ds: "list_all2 (\<lambda>c s. \<forall>out. draw n c h out = Done ((), out @ s)) cs ds" ..
  have "list_all2 (\<lambda>k d. draw n k h [] = Done ((), d)) cs ds"
    by (rule list_all2_mono [OF ds]) (metis append_Nil)
  moreover have "draw (Suc n) c h out = Done ((), out @ concat ds)"
    using assms(2) foreach_draw_concat [OF ds] by simp
  ultimately show ?thesis by blast
qed

section \<open>Destruction\<close>

text \<open>A destruction that returns has released objects and changed none.\<close>

lemma destroy_sub:
  "destroy n a h = Done ((), h') \<Longrightarrow> h' b = None \<or> h' b = h b"
proof (induction n arbitrary: a h h')
  case 0
  then show ?case by simp
next
  case (Suc n)
  show ?case
  proof (cases "h a")
    case None
    with Suc.prems show ?thesis by simp
  next
    case (Some g)
    show ?thesis
    proof (cases g)
      case (Leaf l)
      with Some Suc.prems show ?thesis by auto
    next
      case (CompoundGraphic cs)
      with Some Suc.prems obtain t where loop: "foreach cs (destroy n) h = Done ((), t)"
        and h': "h' = t(a := None)"
        by (auto simp: and_then_Done_iff)
      have "t b = None \<or> t b = h b"
        by (rule foreach_invariant [OF loop, where P = "\<lambda>t. t b = None \<or> t b = h b"])
          (auto dest: Suc.IH)
      with h' show ?thesis by auto
    qed
  qed
qed

lemma shape_of_released:
  "b \<notin> S \<Longrightarrow> shape_of (released S h) b = shape_of h b"
  by (simp add: shape_of_def released_def)

lemma released_empty [simp]: "released {} h = h"
  by (simp add: released_def)

lemma released_released [simp]: "released T (released S h) = released (S \<union> T) h"
  by (rule ext) (simp add: released_def)

lemma released_upd: "(released S h)(a := None) = released (insert a S) h"
  by (rule ext) (simp add: released_def)

lemma destroy_children_nodes:
  assumes IH: "\<And>a ns h. nodes n h a = Some ns \<Longrightarrow> distinct ns \<Longrightarrow>
      destroy n a h = Done ((), released (set ns) h)"
  shows "those (map (nodes n h) cs) = Some xss \<Longrightarrow> distinct (concat xss) \<Longrightarrow>
    S \<inter> set (concat xss) = {} \<Longrightarrow>
    foreach cs (destroy n) (released S h) = Done ((), released (S \<union> set (concat xss)) h)"
proof (induction cs arbitrary: xss S)
  case Nil
  then show ?case by simp
next
  case (Cons c cs)
  from Cons.prems(1) obtain xs xss' where c: "nodes n h c = Some xs"
    and rest: "those (map (nodes n h) cs) = Some xss'" and xss: "xss = xs # xss'"
    unfolding those_map_Cons by blast
  have dist: "distinct xs" "distinct (concat xss')" "set xs \<inter> set (concat xss') = {}"
    using Cons.prems(2) xss by auto
  have disj: "S \<inter> set xs = {}" "(S \<union> set xs) \<inter> set (concat xss') = {}"
    using Cons.prems(3) xss dist(3) by auto
  have "nodes n (released S h) c = Some xs"
    by (rule nodes_agree [OF c]) (use disj(1) in \<open>auto intro!: shape_of_released\<close>)
  then have "destroy n c (released S h) = Done ((), released (S \<union> set xs) h)"
    using IH dist(1) by simp
  then show ?case
    using Cons.IH [OF rest dist(2) disj(2)] xss by (simp add: Un_assoc)
qed

text \<open>Deleting the root of a tree returns and releases exactly the objects of the tree.\<close>

lemma destroy_nodes:
  "nodes n h a = Some ns \<Longrightarrow> distinct ns \<Longrightarrow> destroy n a h = Done ((), released (set ns) h)"
proof (induction n arbitrary: a ns h)
  case 0
  then show ?case by simp
next
  case (Suc n)
  from Suc.prems(1) consider
    (leaf) l where "h a = Some (Leaf l)" "ns = [a]"
  | (comp) cs xss where "h a = Some (CompoundGraphic cs)"
      "those (map (nodes n h) cs) = Some xss" "ns = a # concat xss"
    unfolding nodes_Suc_Some by blast
  then show ?case
  proof cases
    case leaf
    have "h(a := None) = released {a} h" by (rule ext) (simp add: released_def)
    with leaf show ?thesis by simp
  next
    case comp
    have "foreach cs (destroy n) (released {} h)
        = Done ((), released ({} \<union> set (concat xss)) h)"
      by (rule destroy_children_nodes [OF Suc.IH comp(2)]) (use Suc.prems(2) comp(3) in auto)
    then have loop: "foreach cs (destroy n) h = Done ((), released (set (concat xss)) h)"
      by simp
    have "destroy (Suc n) a h = Done ((), (released (set (concat xss)) h)(a := None))"
      using comp(1) loop by simp
    also have "(released (set (concat xss)) h)(a := None) = released (set ns) h"
      unfolding released_upd comp(3) by simp
    finally show ?thesis .
  qed
qed

section \<open>The claims\<close>

subsection \<open>C1: what move does to the positions\<close>

lemma position_Dot_move [simp]: "position (Leaf (Dot_move x y l)) = Some (x, y)"
  by (cases l) simp_all

lemma moved_apply_leaf:
  "h b = Some (Leaf l) \<Longrightarrow> b \<in> S \<Longrightarrow> moved x y S h b = Some (Leaf (Dot_move x y l))"
  by (simp add: moved_def)

lemma moved_apply_out: "b \<notin> S \<Longrightarrow> moved x y S h b = h b"
  by (simp add: moved_def)

text \<open>
  C1 as stated, that \<open>move(dx, dy)\<close> on a container adds \<open>(dx, dy)\<close> to the position of
  every node below it, fails: a \<open>Dot\<close> at (10, 20) below the container at address 1 is
  at (5, 5) after \<open>move(5, 5)\<close>, not at (15, 25).
\<close>

theorem move_translates_counterexample:
  "move 2 1 5 5 [1 \<mapsto> CompoundGraphic [2], 2 \<mapsto> Leaf (Dot 10 20)]
     = Done ((), [1 \<mapsto> CompoundGraphic [2], 2 \<mapsto> Leaf (Dot 5 5)])
   \<and> position (Leaf (Dot 10 20)) = Some (10, 20)
   \<and> position (Leaf (Dot 5 5)) \<noteq> Some (10 + 5, 20 + 5)"
proof (intro conjI)
  show "move 2 1 5 5 [1 \<mapsto> CompoundGraphic [2], 2 \<mapsto> Leaf (Dot 10 20)]
     = Done ((), [1 \<mapsto> CompoundGraphic [2], 2 \<mapsto> Leaf (Dot 5 5)])"
    by (simp add: numeral_2_eq_2)
  show "position (Leaf (Dot 10 20)) = Some (10, 20)"
    by simp
  show "position (Leaf (Dot 5 5)) \<noteq> Some (10 + 5, 20 + 5)"
    by simp
qed

text \<open>
  C1, amended: on a finite structure, \<open>move(x, y)\<close> on \<open>c\<close> returns; every leaf below \<open>c\<close>,
  at any depth, then holds the position \<open>(x, y)\<close> itself (and is otherwise what it was),
  and every object that is not below \<open>c\<close> is unchanged.
\<close>

theorem move_sets_position:
  assumes "nodes n h c = Some ns"
  shows "\<exists>h'. move n c x y h = Done ((), h')
           \<and> (\<forall>b\<in>set ns. \<forall>l. h b = Some (Leaf l) \<longrightarrow>
                 h' b = Some (Leaf (Dot_move x y l))
                 \<and> position (Leaf (Dot_move x y l)) = Some (x, y))
           \<and> (\<forall>b. b \<notin> set ns \<longrightarrow> h' b = h b)"
proof -
  have "move n c x y h = Done ((), moved x y (set ns) h)"
    using assms by (rule move_nodes)
  then show ?thesis
    by (auto simp: moved_apply_leaf moved_apply_out)
qed

theorem move_sets_position_witness:
  "nodes 3 [1 \<mapsto> CompoundGraphic [2, 3], 2 \<mapsto> Leaf (Dot 10 20), 3 \<mapsto> CompoundGraphic [4],
            4 \<mapsto> Leaf (Circle 1 2 3), 5 \<mapsto> Leaf (Dot 7 7)] 1 = Some [1, 2, 3, 4]
   \<and> (\<exists>h'. move 3 1 5 5 [1 \<mapsto> CompoundGraphic [2, 3], 2 \<mapsto> Leaf (Dot 10 20),
              3 \<mapsto> CompoundGraphic [4], 4 \<mapsto> Leaf (Circle 1 2 3), 5 \<mapsto> Leaf (Dot 7 7)]
              = Done ((), h')
         \<and> h' 2 = Some (Leaf (Dot 5 5)) \<and> h' 4 = Some (Leaf (Circle 5 5 3))
         \<and> h' 5 = Some (Leaf (Dot 7 7)))"
proof -
  let ?h = "[1 \<mapsto> CompoundGraphic [2, 3], 2 \<mapsto> Leaf (Dot 10 20), 3 \<mapsto> CompoundGraphic [4],
            4 \<mapsto> Leaf (Circle 1 2 3), 5 \<mapsto> Leaf (Dot (7::int32) 7)]"
  have n: "nodes 3 ?h 1 = Some [1, 2, 3, 4]"
    by (simp add: numeral_3_eq_3)
  from move_sets_position [OF n, of 5 5] obtain h' where
    m: "move 3 1 5 5 ?h = Done ((), h')"
    and inside: "\<forall>b\<in>set [1, 2, 3, 4]. \<forall>l. ?h b = Some (Leaf l) \<longrightarrow>
                 h' b = Some (Leaf (Dot_move 5 5 l)) \<and> position (Leaf (Dot_move 5 5 l)) = Some (5, 5)"
    and outside: "\<forall>b. b \<notin> set [1, 2, 3, 4] \<longrightarrow> h' b = ?h b"
    by blast
  have "h' 2 = Some (Leaf (Dot 5 5))" using inside by simp
  moreover have "h' 4 = Some (Leaf (Circle 5 5 3))" using inside by simp
  moreover have "h' 5 = Some (Leaf (Dot 7 7))" using outside by simp
  ultimately show ?thesis using n m by blast
qed

subsection \<open>C10: move is last-write-wins\<close>

text \<open>
  C10: on a leaf, \<open>move(p, q)\<close> followed by \<open>move(x, y)\<close> leaves exactly the state that
  \<open>move(x, y)\<close> alone leaves; and after \<open>move(x, y)\<close> on a node with a finite structure
  below it, every leaf below it reports the position \<open>(x, y)\<close>, whatever it held before.
\<close>

theorem move_last_write_wins:
  "(h a = Some (Leaf l) \<longrightarrow>
      and_then (move (Suc n) a p q h) (\<lambda>_. move (Suc m) a x y) = move (Suc m) a x y h
      \<and> move (Suc m) a x y h = Done ((), h(a \<mapsto> Leaf (Dot_move x y l))))
   \<and> (nodes k h c = Some ns \<longrightarrow>
      (\<exists>h'. move k c x y h = Done ((), h')
         \<and> (\<forall>b\<in>set ns. \<forall>l. h b = Some (Leaf l) \<longrightarrow>
               map_option position (h' b) = Some (Some (x, y)))))"
proof (intro conjI impI)
  assume "h a = Some (Leaf l)"
  then show "and_then (move (Suc n) a p q h) (\<lambda>_. move (Suc m) a x y) = move (Suc m) a x y h"
    by simp
next
  assume "h a = Some (Leaf l)"
  then show "move (Suc m) a x y h = Done ((), h(a \<mapsto> Leaf (Dot_move x y l)))"
    by simp
next
  assume "nodes k h c = Some ns"
  then have "move k c x y h = Done ((), moved x y (set ns) h)"
    by (rule move_nodes)
  then show "\<exists>h'. move k c x y h = Done ((), h')
         \<and> (\<forall>b\<in>set ns. \<forall>l. h b = Some (Leaf l) \<longrightarrow>
               map_option position (h' b) = Some (Some (x, y)))"
    by (auto simp: moved_apply_leaf)
qed

theorem move_last_write_wins_witness:
  "([1 \<mapsto> CompoundGraphic [2, 3], 2 \<mapsto> Leaf (Dot 10 20), 3 \<mapsto> Leaf (Circle 1 2 3)] :: heap) 3
      = Some (Leaf (Circle 1 2 3))
   \<and> and_then (move 1 3 8 9 [1 \<mapsto> CompoundGraphic [2, 3], 2 \<mapsto> Leaf (Dot 10 20),
                               3 \<mapsto> Leaf (Circle 1 2 3)]) (\<lambda>_. move 1 3 4 6)
      = Done ((), [1 \<mapsto> CompoundGraphic [2, 3], 2 \<mapsto> Leaf (Dot 10 20),
                   3 \<mapsto> Leaf (Circle 4 6 3)])
   \<and> nodes 2 [1 \<mapsto> CompoundGraphic [2, 3], 2 \<mapsto> Leaf (Dot 10 20), 3 \<mapsto> Leaf (Circle 1 2 3)] 1
      = Some [1, 2, 3]
   \<and> (\<exists>h'. move 2 1 4 6 [1 \<mapsto> CompoundGraphic [2, 3], 2 \<mapsto> Leaf (Dot 10 20),
                           3 \<mapsto> Leaf (Circle 1 2 3)] = Done ((), h')
         \<and> map_option position (h' 2) = Some (Some (4, 6))
         \<and> map_option position (h' 3) = Some (Some (4, 6)))"
proof -
  let ?h = "[1 \<mapsto> CompoundGraphic [2, 3], 2 \<mapsto> Leaf (Dot 10 20), 3 \<mapsto> Leaf (Circle 1 2 3)] :: heap"
  have l: "?h 3 = Some (Leaf (Circle 1 2 3))" by simp
  have n: "nodes 2 ?h 1 = Some [1, 2, 3]" by (simp add: numeral_2_eq_2)
  note inst = move_last_write_wins [where h = ?h and a = 3 and l = "Circle 1 2 3" and n = 0
      and m = 0 and p = 8 and q = 9 and x = 4 and y = 6 and k = 2 and c = 1 and ns = "[1, 2, 3]"]
  from inst l have "and_then (move 1 3 8 9 ?h) (\<lambda>_. move 1 3 4 6)
      = Done ((), ?h(3 \<mapsto> Leaf (Dot_move 4 6 (Circle 1 2 3))))"
    by simp
  moreover have "?h(3 \<mapsto> Leaf (Dot_move 4 6 (Circle 1 2 3)))
      = [1 \<mapsto> CompoundGraphic [2, 3], 2 \<mapsto> Leaf (Dot 10 20), 3 \<mapsto> Leaf (Circle 4 6 3)]"
    by simp
  moreover from inst n obtain h' where "move 2 1 4 6 ?h = Done ((), h')"
    "\<forall>b\<in>set [1, 2, 3]. \<forall>l. ?h b = Some (Leaf l) \<longrightarrow> map_option position (h' b) = Some (Some (4, 6))"
    by blast
  then have "\<exists>h'. move 2 1 4 6 ?h = Done ((), h')
         \<and> map_option position (h' 2) = Some (Some (4, 6))
         \<and> map_option position (h' 3) = Some (Some (4, 6))"
    by auto
  ultimately show ?thesis using l n by simp
qed

subsection \<open>C6: add\<close>

text \<open>
  C6 as stated fails in one part: \<open>add\<close> returns no handle. It is a \<open>void\<close> method, and
  the value of the call is \<open>()\<close> whichever node is added, here the \<open>Dot\<close> at address 2 and
  the \<open>Circle\<close> at address 3; a caller that wants a handle takes the address before the
  call, as \<open>main\<close> does with \<open>d.get()\<close>.
\<close>

theorem add_returns_handle_counterexample:
  "CompoundGraphic_add 1 2 [1 \<mapsto> CompoundGraphic [], 2 \<mapsto> Leaf (Dot 10 20), 3 \<mapsto> Leaf (Circle 5 5 3)]
     = Done ((), [1 \<mapsto> CompoundGraphic [2], 2 \<mapsto> Leaf (Dot 10 20), 3 \<mapsto> Leaf (Circle 5 5 3)])
   \<and> CompoundGraphic_add 1 3 [1 \<mapsto> CompoundGraphic [], 2 \<mapsto> Leaf (Dot 10 20), 3 \<mapsto> Leaf (Circle 5 5 3)]
     = Done ((), [1 \<mapsto> CompoundGraphic [3], 2 \<mapsto> Leaf (Dot 10 20), 3 \<mapsto> Leaf (Circle 5 5 3)])"
  by (auto simp: CompoundGraphic_add_def)

text \<open>
  C6, amended: \<open>add(child)\<close> on a container never fails and returns nothing; it leaves
  \<open>child\<close> as the last of the container's children, after the children held before,
  which keep their places, and changes no other object.
\<close>

theorem add_appends:
  assumes "h c = Some (CompoundGraphic cs)"
  shows "\<exists>cs'. CompoundGraphic_add c child h = Done ((), h(c \<mapsto> CompoundGraphic cs'))
           \<and> cs' = cs @ [child] \<and> length cs' = Suc (length cs)
           \<and> take (length cs) cs' = cs \<and> last cs' = child"
  using assms by (simp add: CompoundGraphic_add_def)

theorem add_appends_witness:
  "([1 \<mapsto> CompoundGraphic [2], 2 \<mapsto> Leaf (Dot 10 20), 3 \<mapsto> Leaf (Circle 5 5 3)] :: heap) 1
     = Some (CompoundGraphic [2])
   \<and> CompoundGraphic_add 1 3 [1 \<mapsto> CompoundGraphic [2], 2 \<mapsto> Leaf (Dot 10 20), 3 \<mapsto> Leaf (Circle 5 5 3)]
     = Done ((), [1 \<mapsto> CompoundGraphic [2, 3], 2 \<mapsto> Leaf (Dot 10 20), 3 \<mapsto> Leaf (Circle 5 5 3)])"
proof -
  let ?h = "[1 \<mapsto> CompoundGraphic [2], 2 \<mapsto> Leaf (Dot 10 20), 3 \<mapsto> Leaf (Circle 5 5 3)] :: heap"
  have c: "?h 1 = Some (CompoundGraphic [2])" by simp
  from c add_appends [where h = ?h and c = 1 and cs = "[2]" and child = 3]
  have "CompoundGraphic_add 1 3 ?h = Done ((), ?h(1 \<mapsto> CompoundGraphic [2, 3]))"
    by simp
  moreover have "?h(1 \<mapsto> CompoundGraphic [2, 3])
      = [1 \<mapsto> CompoundGraphic [2, 3], 2 \<mapsto> Leaf (Dot 10 20), 3 \<mapsto> Leaf (Circle 5 5 3)]"
    by auto
  ultimately show ?thesis using c by simp
qed

subsection \<open>C7: scenario A, which is main\<close>

text \<open>
  C7 as stated fails: what \<open>draw\<close> writes for the \<open>Dot\<close> and the \<open>Circle\<close> of the scenario
  is not \<open>Dot(10,20)\<close> and \<open>Circle(5,5,r=3)\<close>. Each description is a line
  \<open>Drawing ..., x: ..., y: ...\<close>, and the line of a circle does not depend on its radius.
\<close>

theorem scenario_A_counterexample:
  "draw 2 1 [1 \<mapsto> CompoundGraphic [2, 3], 2 \<mapsto> Leaf (Dot 10 20), 3 \<mapsto> Leaf (Circle 5 5 3)] []
     = Done ((), ''Drawing Dot, x: 10, y: 20\<newline>Drawing Circle, x: 5, y: 5\<newline>'')
   \<and> ''Drawing Dot, x: 10, y: 20\<newline>Drawing Circle, x: 5, y: 5\<newline>''
       \<noteq> ''Dot(10,20)'' @ ''Circle(5,5,r=3)''
   \<and> leaf_draw (Circle 5 5 3) = leaf_draw (Circle 5 5 4)"
proof (intro conjI)
  show "draw 2 1 [1 \<mapsto> CompoundGraphic [2, 3], 2 \<mapsto> Leaf (Dot 10 20), 3 \<mapsto> Leaf (Circle 5 5 3)] []
     = Done ((), ''Drawing Dot, x: 10, y: 20\<newline>Drawing Circle, x: 5, y: 5\<newline>'')"
    by (simp add: numeral_2_eq_2 show_int_def show_nat.simps)
  show "''Drawing Dot, x: 10, y: 20\<newline>Drawing Circle, x: 5, y: 5\<newline>''
       \<noteq> ''Dot(10,20)'' @ ''Circle(5,5,r=3)''"
    by simp
  show "leaf_draw (Circle 5 5 3) = leaf_draw (Circle 5 5 4)"
    by simp
qed

text \<open>
  C7, amended: with the \<open>Dot\<close> at (10, 20) and then the \<open>Circle\<close> at (5, 5) with radius 3
  added to the root, \<open>draw\<close> on the root writes the line \<open>Drawing Dot, x: 10, y: 20\<close> and
  then the line \<open>Drawing Circle, x: 5, y: 5\<close>; after \<open>remove\<close> with the address of the
  \<open>Dot\<close> it writes the line of the \<open>Circle\<close> only. \<open>main\<close> runs exactly this and writes
  the two drawings after their banners.
\<close>

theorem scenario_A:
  assumes "root \<noteq> d" and "c \<noteq> root" and "c \<noteq> d"
  shows "and_then (CompoundGraphic_add root d [root \<mapsto> CompoundGraphic [], d \<mapsto> Leaf (Dot 10 20)])
           (\<lambda>_ h. CompoundGraphic_add root c (h(c \<mapsto> Leaf (Circle 5 5 3))))
         = Done ((), [root \<mapsto> CompoundGraphic [d, c], d \<mapsto> Leaf (Dot 10 20),
                      c \<mapsto> Leaf (Circle 5 5 3)])
     \<and> draw (Suc (Suc n)) root [root \<mapsto> CompoundGraphic [d, c], d \<mapsto> Leaf (Dot 10 20),
                                  c \<mapsto> Leaf (Circle 5 5 3)] []
         = Done ((), ''Drawing Dot, x: 10, y: 20\<newline>Drawing Circle, x: 5, y: 5\<newline>'')
     \<and> CompoundGraphic_remove (Suc (Suc n)) root d
           [root \<mapsto> CompoundGraphic [d, c], d \<mapsto> Leaf (Dot 10 20), c \<mapsto> Leaf (Circle 5 5 3)]
         = Done ((), [root \<mapsto> CompoundGraphic [c], c \<mapsto> Leaf (Circle 5 5 3)])
     \<and> draw (Suc (Suc n)) root [root \<mapsto> CompoundGraphic [c], c \<mapsto> Leaf (Circle 5 5 3)] []
         = Done ((), ''Drawing Circle, x: 5, y: 5\<newline>'')
     \<and> main (Suc (Suc n)) root d c
         = Done (0, Map.empty, ''Before draw:\<newline>Drawing Dot, x: 10, y: 20\<newline>Drawing Circle, x: 5, y: 5\<newline>After removal:\<newline>Drawing Circle, x: 5, y: 5\<newline>'')"
proof (intro conjI)
  show "and_then (CompoundGraphic_add root d [root \<mapsto> CompoundGraphic [], d \<mapsto> Leaf (Dot 10 20)])
           (\<lambda>_ h. CompoundGraphic_add root c (h(c \<mapsto> Leaf (Circle 5 5 3))))
         = Done ((), [root \<mapsto> CompoundGraphic [d, c], d \<mapsto> Leaf (Dot 10 20),
                      c \<mapsto> Leaf (Circle 5 5 3)])"
    using assms by (auto simp: CompoundGraphic_add_def)
  show "draw (Suc (Suc n)) root [root \<mapsto> CompoundGraphic [d, c], d \<mapsto> Leaf (Dot 10 20),
                                  c \<mapsto> Leaf (Circle 5 5 3)] []
         = Done ((), ''Drawing Dot, x: 10, y: 20\<newline>Drawing Circle, x: 5, y: 5\<newline>'')"
    using assms by (simp add: show_int_def show_nat.simps)
  show "CompoundGraphic_remove (Suc (Suc n)) root d
           [root \<mapsto> CompoundGraphic [d, c], d \<mapsto> Leaf (Dot 10 20), c \<mapsto> Leaf (Circle 5 5 3)]
         = Done ((), [root \<mapsto> CompoundGraphic [c], c \<mapsto> Leaf (Circle 5 5 3)])"
    using assms by (auto simp: CompoundGraphic_remove_def)
  show "draw (Suc (Suc n)) root [root \<mapsto> CompoundGraphic [c], c \<mapsto> Leaf (Circle 5 5 3)] []
         = Done ((), ''Drawing Circle, x: 5, y: 5\<newline>'')"
    using assms by (simp add: show_int_def show_nat.simps)
  show "main (Suc (Suc n)) root d c
         = Done (0, Map.empty, ''Before draw:\<newline>Drawing Dot, x: 10, y: 20\<newline>Drawing Circle, x: 5, y: 5\<newline>After removal:\<newline>Drawing Circle, x: 5, y: 5\<newline>'')"
    using assms
    by (auto simp: main_def CompoundGraphic_add_def CompoundGraphic_remove_def
        show_int_def show_nat.simps)
qed

theorem scenario_A_witness:
  "(1::addr) \<noteq> 2 \<and> (3::addr) \<noteq> 1 \<and> (3::addr) \<noteq> 2
   \<and> draw 2 1 [1 \<mapsto> CompoundGraphic [2, 3], 2 \<mapsto> Leaf (Dot 10 20), 3 \<mapsto> Leaf (Circle 5 5 3)] []
       = Done ((), ''Drawing Dot, x: 10, y: 20\<newline>Drawing Circle, x: 5, y: 5\<newline>'')
   \<and> CompoundGraphic_remove 2 1 2
        [1 \<mapsto> CompoundGraphic [2, 3], 2 \<mapsto> Leaf (Dot 10 20), 3 \<mapsto> Leaf (Circle 5 5 3)]
       = Done ((), [1 \<mapsto> CompoundGraphic [3], 3 \<mapsto> Leaf (Circle 5 5 3)])
   \<and> draw 2 1 [1 \<mapsto> CompoundGraphic [3], 3 \<mapsto> Leaf (Circle 5 5 3)] []
       = Done ((), ''Drawing Circle, x: 5, y: 5\<newline>'')
   \<and> main 2 1 2 3
       = Done (0, Map.empty, ''Before draw:\<newline>Drawing Dot, x: 10, y: 20\<newline>Drawing Circle, x: 5, y: 5\<newline>After removal:\<newline>Drawing Circle, x: 5, y: 5\<newline>'')"
proof -
  have a: "(1::addr) \<noteq> 2" "(3::addr) \<noteq> 1" "(3::addr) \<noteq> 2" by simp_all
  have two: "(2::nat) = Suc (Suc 0)" by simp
  show ?thesis
    using a scenario_A [OF a, of 0] unfolding two by blast
qed

subsection \<open>C8: scenario B\<close>

text \<open>
  C8: a root \<open>r\<close> holds a sub-container \<open>s\<close>, which holds a leaf at (0, 0), a \<open>Dot\<close> or a
  \<open>Circle\<close>. After \<open>move(5, 5)\<close> on the root, \<open>draw\<close> on the root writes the leaf's line
  with \<open>x: 5, y: 5\<close>: the call has gone through both levels.
\<close>

theorem scenario_B:
  assumes "r \<noteq> s" and "l \<noteq> r" and "l \<noteq> s" and "position (Leaf leaf0) = Some (0, 0)"
  shows "and_then (CompoundGraphic_add s l
                     [r \<mapsto> CompoundGraphic [], s \<mapsto> CompoundGraphic [], l \<mapsto> Leaf leaf0])
           (\<lambda>_. CompoundGraphic_add r s)
         = Done ((), [r \<mapsto> CompoundGraphic [s], s \<mapsto> CompoundGraphic [l], l \<mapsto> Leaf leaf0])
     \<and> and_then (move (Suc (Suc (Suc n))) r 5 5
                     [r \<mapsto> CompoundGraphic [s], s \<mapsto> CompoundGraphic [l], l \<mapsto> Leaf leaf0])
           (\<lambda>_ h. draw (Suc (Suc (Suc n))) r h [])
         = Done ((), case leaf0 of
                       Dot _ _ \<Rightarrow> ''Drawing Dot, x: 5, y: 5\<newline>''
                     | Circle _ _ _ \<Rightarrow> ''Drawing Circle, x: 5, y: 5\<newline>'')"
proof (intro conjI)
  show "and_then (CompoundGraphic_add s l
                     [r \<mapsto> CompoundGraphic [], s \<mapsto> CompoundGraphic [], l \<mapsto> Leaf leaf0])
           (\<lambda>_. CompoundGraphic_add r s)
         = Done ((), [r \<mapsto> CompoundGraphic [s], s \<mapsto> CompoundGraphic [l], l \<mapsto> Leaf leaf0])"
    using assms(1-3) by (auto simp: CompoundGraphic_add_def)
  show "and_then (move (Suc (Suc (Suc n))) r 5 5
                     [r \<mapsto> CompoundGraphic [s], s \<mapsto> CompoundGraphic [l], l \<mapsto> Leaf leaf0])
           (\<lambda>_ h. draw (Suc (Suc (Suc n))) r h [])
         = Done ((), case leaf0 of
                       Dot _ _ \<Rightarrow> ''Drawing Dot, x: 5, y: 5\<newline>''
                     | Circle _ _ _ \<Rightarrow> ''Drawing Circle, x: 5, y: 5\<newline>'')"
    using assms(1-3) by (cases leaf0) (simp_all add: show_int_def show_nat.simps)
qed

theorem scenario_B_witness:
  "(1::addr) \<noteq> 2 \<and> (3::addr) \<noteq> 1 \<and> (3::addr) \<noteq> 2 \<and> position (Leaf (Dot 0 0)) = Some (0, 0)
   \<and> and_then (CompoundGraphic_add 2 3
                  [1 \<mapsto> CompoundGraphic [], 2 \<mapsto> CompoundGraphic [], 3 \<mapsto> Leaf (Dot 0 0)])
        (\<lambda>_. CompoundGraphic_add 1 2)
       = Done ((), [1 \<mapsto> CompoundGraphic [2], 2 \<mapsto> CompoundGraphic [3], 3 \<mapsto> Leaf (Dot 0 0)])
   \<and> and_then (move 3 1 5 5
                  [1 \<mapsto> CompoundGraphic [2], 2 \<mapsto> CompoundGraphic [3], 3 \<mapsto> Leaf (Dot 0 0)])
        (\<lambda>_ h. draw 3 1 h [])
       = Done ((), ''Drawing Dot, x: 5, y: 5\<newline>'')"
proof -
  have a: "(1::addr) \<noteq> 2" "(3::addr) \<noteq> 1" "(3::addr) \<noteq> 2"
    "position (Leaf (Dot 0 0)) = Some (0, 0)" by simp_all
  have three: "(3::nat) = Suc (Suc (Suc 0))" by simp
  show ?thesis
    using a scenario_B [OF a, of 0] unfolding three by simp
qed

subsection \<open>C5: draw follows the order of the adds\<close>

lemma foreach_add:
  "h c = Some (CompoundGraphic cs) \<Longrightarrow>
     foreach ks (CompoundGraphic_add c) h = Done ((), h(c \<mapsto> CompoundGraphic (cs @ ks)))"
proof (induction ks arbitrary: h cs)
  case Nil
  then show ?case by (simp add: map_upd_triv)
next
  case (Cons k ks)
  have "CompoundGraphic_add c k h = Done ((), h(c \<mapsto> CompoundGraphic (cs @ [k])))"
    using Cons.prems by (simp add: CompoundGraphic_add_def)
  then have "foreach (k # ks) (CompoundGraphic_add c) h
      = foreach ks (CompoundGraphic_add c) (h(c \<mapsto> CompoundGraphic (cs @ [k])))"
    by simp
  also have "\<dots> = Done ((), (h(c \<mapsto> CompoundGraphic (cs @ [k])))(c \<mapsto> CompoundGraphic ((cs @ [k]) @ ks)))"
    by (rule Cons.IH) simp
  also have "(h(c \<mapsto> CompoundGraphic (cs @ [k])))(c \<mapsto> CompoundGraphic ((cs @ [k]) @ ks))
      = h(c \<mapsto> CompoundGraphic (cs @ k # ks))"
    by simp
  finally show ?case .
qed

text \<open>
  C5: \<open>draw\<close> on a container without children writes nothing. When the nodes \<open>ks\<close> are
  added, in this order, to a container that holds \<open>cs\<close>, and the structure below it is
  finite, then \<open>draw\<close> on the container returns and writes the texts that \<open>draw\<close> writes
  for each of \<open>cs @ ks\<close>, one after the other in that order. This is so for every
  container, hence at every depth of nesting.
\<close>

theorem draw_in_add_order:
  "(h c = Some (CompoundGraphic []) \<longrightarrow> draw (Suc n) c h out = Done ((), out))
   \<and> (h c = Some (CompoundGraphic cs)
        \<and> nodes (Suc n) (h(c \<mapsto> CompoundGraphic (cs @ ks))) c = Some ns \<longrightarrow>
      foreach ks (CompoundGraphic_add c) h = Done ((), h(c \<mapsto> CompoundGraphic (cs @ ks)))
      \<and> (\<exists>ds. list_all2 (\<lambda>k d. draw n k (h(c \<mapsto> CompoundGraphic (cs @ ks))) [] = Done ((), d))
                 (cs @ ks) ds
             \<and> draw (Suc n) c (h(c \<mapsto> CompoundGraphic (cs @ ks))) out
                 = Done ((), out @ concat ds)))"
proof (intro conjI impI)
  assume "h c = Some (CompoundGraphic [])"
  then show "draw (Suc n) c h out = Done ((), out)" by simp
next
  assume "h c = Some (CompoundGraphic cs)
        \<and> nodes (Suc n) (h(c \<mapsto> CompoundGraphic (cs @ ks))) c = Some ns"
  then show "foreach ks (CompoundGraphic_add c) h = Done ((), h(c \<mapsto> CompoundGraphic (cs @ ks)))"
    by (simp add: foreach_add)
next
  let ?h' = "h(c \<mapsto> CompoundGraphic (cs @ ks))"
  assume "h c = Some (CompoundGraphic cs) \<and> nodes (Suc n) ?h' c = Some ns"
  then have "nodes (Suc n) ?h' c = Some ns" ..
  moreover have "?h' c = Some (CompoundGraphic (cs @ ks))" by simp
  ultimately show "\<exists>ds. list_all2 (\<lambda>k d. draw n k ?h' [] = Done ((), d)) (cs @ ks) ds
             \<and> draw (Suc n) c ?h' out = Done ((), out @ concat ds)"
    by (rule draw_children_nodes)
qed

theorem draw_in_add_order_witness:
  "([1 \<mapsto> CompoundGraphic [], 2 \<mapsto> Leaf (Dot 10 20), 3 \<mapsto> CompoundGraphic [4],
     4 \<mapsto> Leaf (Circle 5 5 3)] :: heap) 1 = Some (CompoundGraphic [])
   \<and> draw 3 1 [1 \<mapsto> CompoundGraphic [], 2 \<mapsto> Leaf (Dot 10 20), 3 \<mapsto> CompoundGraphic [4],
                4 \<mapsto> Leaf (Circle 5 5 3)] ''abc'' = Done ((), ''abc'')
   \<and> nodes 3 [1 \<mapsto> CompoundGraphic [3, 2], 2 \<mapsto> Leaf (Dot 10 20), 3 \<mapsto> CompoundGraphic [4],
               4 \<mapsto> Leaf (Circle 5 5 3)] 1 = Some [1, 3, 4, 2]
   \<and> foreach [3, 2] (CompoundGraphic_add 1)
        [1 \<mapsto> CompoundGraphic [], 2 \<mapsto> Leaf (Dot 10 20), 3 \<mapsto> CompoundGraphic [4],
         4 \<mapsto> Leaf (Circle 5 5 3)]
       = Done ((), [1 \<mapsto> CompoundGraphic [3, 2], 2 \<mapsto> Leaf (Dot 10 20), 3 \<mapsto> CompoundGraphic [4],
                    4 \<mapsto> Leaf (Circle 5 5 3)])
   \<and> draw 3 1 [1 \<mapsto> CompoundGraphic [3, 2], 2 \<mapsto> Leaf (Dot 10 20), 3 \<mapsto> CompoundGraphic [4],
                4 \<mapsto> Leaf (Circle 5 5 3)] []
       = Done ((), ''Drawing Circle, x: 5, y: 5\<newline>Drawing Dot, x: 10, y: 20\<newline>'')"
proof -
  let ?h = "[1 \<mapsto> CompoundGraphic [], 2 \<mapsto> Leaf (Dot 10 20), 3 \<mapsto> CompoundGraphic [4],
     4 \<mapsto> Leaf (Circle 5 5 3)] :: heap"
  let ?h' = "[1 \<mapsto> CompoundGraphic [3, 2], 2 \<mapsto> Leaf (Dot 10 20), 3 \<mapsto> CompoundGraphic [4],
     4 \<mapsto> Leaf (Circle 5 5 3)] :: heap"
  have h': "?h(1 \<mapsto> CompoundGraphic ([] @ [3, 2])) = ?h'" by auto
  have c: "?h 1 = Some (CompoundGraphic [])" by simp
  have n: "nodes (Suc 2) ?h' 1 = Some [1, 3, 4, 2]" by (simp add: numeral_2_eq_2)
  note inst = draw_in_add_order [where h = ?h and c = 1 and n = 2 and cs = "[]" and ks = "[3, 2]"
      and ns = "[1, 3, 4, 2]", unfolded h']
  have e: "draw 3 1 ?h ''abc'' = Done ((), ''abc'')"
    using inst [of "''abc''"] c by simp
  have a: "foreach [3, 2] (CompoundGraphic_add 1) ?h = Done ((), ?h')"
    using inst [of "[]"] c n by simp
  from inst [of "[]"] c n obtain ds where
    ds: "list_all2 (\<lambda>k d. draw 2 k ?h' [] = Done ((), d)) [3, 2] ds"
    and d: "draw (Suc 2) 1 ?h' [] = Done ((), concat ds)"
    by auto
  from ds have "ds = [''Drawing Circle, x: 5, y: 5\<newline>'', ''Drawing Dot, x: 10, y: 20\<newline>'']"
    by (auto simp: list_all2_Cons1 numeral_2_eq_2 show_int_def show_nat.simps)
  with d have "draw 3 1 ?h' [] = Done ((), ''Drawing Circle, x: 5, y: 5\<newline>Drawing Dot, x: 10, y: 20\<newline>'')"
    by simp
  with c e n a show ?thesis by simp
qed

subsection \<open>C4: remove is idempotent\<close>

lemma erase_first_None_iff: "erase_first cs p = None \<longleftrightarrow> p \<notin> set cs"
  by (induction cs) auto

lemma erase_first_Some:
  "erase_first cs p = Some cs' \<Longrightarrow> cs' = remove1 p cs \<and> p \<in> set cs"
  by (induction cs arbitrary: cs') (auto split: if_splits)

lemma children_distinct:
  "those (map (nodes m h) cs) = Some xss \<Longrightarrow> distinct (concat xss) \<Longrightarrow> distinct cs"
proof (induction cs arbitrary: xss)
  case Nil
  show ?case by simp
next
  case (Cons k cs)
  from Cons.prems(1) obtain xs xss' where k: "nodes m h k = Some xs"
    and rest: "those (map (nodes m h) cs) = Some xss'" and xss: "xss = xs # xss'"
    unfolding those_map_Cons by blast
  have dist: "distinct (concat xss')" "set xs \<inter> set (concat xss') = {}"
    using Cons.prems(2) xss by auto
  have "k \<notin> set cs"
  proof
    assume "k \<in> set cs"
    from those_map_member [OF rest this] k have "xs \<in> set xss'" by auto
    moreover have "k \<in> set xs" using k by (rule nodes_self)
    ultimately show False using dist(2) by auto
  qed
  moreover have "distinct cs" using rest dist(1) by (rule Cons.IH)
  ultimately show ?case by simp
qed

lemma remove_absent:
  "h c = Some (CompoundGraphic cs) \<Longrightarrow> p \<notin> set cs \<Longrightarrow>
     CompoundGraphic_remove fuel c p h = Done ((), h)"
  by (simp add: CompoundGraphic_remove_def erase_first_None_iff [THEN iffD2])

lemma remove_present:
  assumes t: "tree n h c" and c: "h c = Some (CompoundGraphic cs)" and p: "p \<in> set cs"
  shows "\<exists>h1. CompoundGraphic_remove n c p h = Done ((), h1)
           \<and> h1 c = Some (CompoundGraphic (remove1 p cs)) \<and> h1 p = None
           \<and> p \<notin> set (remove1 p cs)"
proof -
  from t obtain ns where ns: "nodes n h c = Some ns" and dist: "distinct ns"
    by (auto simp: tree_def split: option.splits)
  from ns obtain m where n: "n = Suc m" by (rule nodes_SomeE)
  from ns c obtain xss where xss: "those (map (nodes m h) cs) = Some xss"
    and ns_eq: "ns = c # concat xss"
    unfolding n nodes_Suc_Some by auto
  from those_map_member [OF xss p] obtain xs where xs: "nodes m h p = Some xs"
    and xs_in: "xs \<in> set xss" by blast
  have dconcat: "distinct (concat xss)" and c_out: "c \<notin> set xs"
    using dist ns_eq xs_in by auto
  have dxs: "distinct xs"
    using dconcat xs_in by (auto simp: distinct_concat_iff)
  have dcs: "distinct cs"
    using xss dconcat by (rule children_distinct)
  from p obtain cs' where e: "erase_first cs p = Some cs'"
    using erase_first_None_iff [of cs p] by (cases "erase_first cs p") auto
  then have cs': "cs' = remove1 p cs" by (simp add: erase_first_Some)
  let ?h0 = "h(c \<mapsto> CompoundGraphic cs')"
  have "nodes m ?h0 p = Some xs"
    by (rule nodes_agree [OF xs]) (use c_out in \<open>auto simp: shape_of_def\<close>)
  then have "nodes n ?h0 p = Some xs" unfolding n by (rule nodes_mono)
  then have d: "destroy n p ?h0 = Done ((), released (set xs) ?h0)"
    using dxs by (rule destroy_nodes)
  have "CompoundGraphic_remove n c p h = Done ((), released (set xs) ?h0)"
    using c e d by (simp add: CompoundGraphic_remove_def)
  moreover have "released (set xs) ?h0 c = Some (CompoundGraphic (remove1 p cs))"
    using c_out cs' by (simp add: released_def)
  moreover have "released (set xs) ?h0 p = None"
    using nodes_self [OF xs] by (simp add: released_def)
  moreover have "p \<notin> set (remove1 p cs)" using dcs by simp
  ultimately show ?thesis by blast
qed

text \<open>
  C4: \<open>remove(p)\<close> on a container that does not hold \<open>p\<close> among its children (it never
  did, or the node is gone) changes nothing and reports nothing. On a container whose
  structure is a tree, \<open>remove(p)\<close> returns, and a second \<open>remove(p)\<close> right after it
  returns and leaves the state of the first: twice is the same as once.
\<close>

theorem remove_idempotent:
  "(h c = Some (CompoundGraphic cs) \<and> p \<notin> set cs \<longrightarrow>
      CompoundGraphic_remove fuel c p h = Done ((), h))
   \<and> (tree n h c \<and> h c = Some (CompoundGraphic cs) \<longrightarrow>
      (\<exists>h1. CompoundGraphic_remove n c p h = Done ((), h1)
         \<and> h1 c = Some (CompoundGraphic (remove1 p cs))
         \<and> (p \<in> set cs \<longrightarrow> h1 p = None)
         \<and> CompoundGraphic_remove n c p h1 = Done ((), h1)))"
proof (intro conjI impI)
  assume "h c = Some (CompoundGraphic cs) \<and> p \<notin> set cs"
  then show "CompoundGraphic_remove fuel c p h = Done ((), h)"
    by (simp add: remove_absent)
next
  assume a: "tree n h c \<and> h c = Some (CompoundGraphic cs)"
  show "\<exists>h1. CompoundGraphic_remove n c p h = Done ((), h1)
         \<and> h1 c = Some (CompoundGraphic (remove1 p cs))
         \<and> (p \<in> set cs \<longrightarrow> h1 p = None)
         \<and> CompoundGraphic_remove n c p h1 = Done ((), h1)"
  proof (cases "p \<in> set cs")
    case True
    with a obtain h1 where h1: "CompoundGraphic_remove n c p h = Done ((), h1)"
      "h1 c = Some (CompoundGraphic (remove1 p cs))" "h1 p = None" "p \<notin> set (remove1 p cs)"
      using remove_present by blast
    from h1(2,4) have "CompoundGraphic_remove n c p h1 = Done ((), h1)"
      by (rule remove_absent)
    with h1 show ?thesis by blast
  next
    case False
    with a have "CompoundGraphic_remove n c p h = Done ((), h)"
      by (simp add: remove_absent)
    moreover have "h c = Some (CompoundGraphic (remove1 p cs))"
      using a False by (simp add: remove1_idem)
    ultimately show ?thesis using False by auto
  qed
qed

theorem remove_idempotent_witness:
  "tree 3 [1 \<mapsto> CompoundGraphic [2, 3], 2 \<mapsto> Leaf (Dot 10 20), 3 \<mapsto> CompoundGraphic [4],
           4 \<mapsto> Leaf (Circle 5 5 3)] 1
   \<and> CompoundGraphic_remove 3 1 3
        [1 \<mapsto> CompoundGraphic [2, 3], 2 \<mapsto> Leaf (Dot 10 20), 3 \<mapsto> CompoundGraphic [4],
         4 \<mapsto> Leaf (Circle 5 5 3)]
       = Done ((), [1 \<mapsto> CompoundGraphic [2], 2 \<mapsto> Leaf (Dot 10 20)])
   \<and> CompoundGraphic_remove 3 1 3 [1 \<mapsto> CompoundGraphic [2], 2 \<mapsto> Leaf (Dot 10 20)]
       = Done ((), [1 \<mapsto> CompoundGraphic [2], 2 \<mapsto> Leaf (Dot 10 20)])
   \<and> CompoundGraphic_remove 0 1 7 [1 \<mapsto> CompoundGraphic [2], 2 \<mapsto> Leaf (Dot 10 20)]
       = Done ((), [1 \<mapsto> CompoundGraphic [2], 2 \<mapsto> Leaf (Dot 10 20)])"
proof -
  let ?h = "[1 \<mapsto> CompoundGraphic [2, 3], 2 \<mapsto> Leaf (Dot 10 20), 3 \<mapsto> CompoundGraphic [4],
           4 \<mapsto> Leaf (Circle 5 5 3)] :: heap"
  let ?h1 = "[1 \<mapsto> CompoundGraphic [2], 2 \<mapsto> Leaf (Dot 10 20)] :: heap"
  have t: "tree 3 ?h 1" by (simp add: tree_def numeral_3_eq_3)
  have c: "?h 1 = Some (CompoundGraphic [2, 3])" by simp
  have r: "CompoundGraphic_remove 3 1 3 ?h = Done ((), ?h1)"
    by (auto simp: CompoundGraphic_remove_def numeral_3_eq_3)
  from remove_idempotent [where h = ?h and c = 1 and cs = "[2, 3]" and p = 3 and n = 3] t c
  obtain h1 where "CompoundGraphic_remove 3 1 3 ?h = Done ((), h1)"
    and again: "CompoundGraphic_remove 3 1 3 h1 = Done ((), h1)"
    by blast
  with r have twice: "CompoundGraphic_remove 3 1 3 ?h1 = Done ((), ?h1)" by simp
  have c1: "?h1 1 = Some (CompoundGraphic [2]) \<and> 7 \<notin> set [2::addr]" by simp
  from remove_idempotent [where h = ?h1 and c = 1 and cs = "[2]" and p = 7 and fuel = 0] c1
  have "CompoundGraphic_remove 0 1 7 ?h1 = Done ((), ?h1)" by blast
  with t r twice show ?thesis by simp
qed

subsection \<open>C9: the kind of a node\<close>

lemma Type_agree:
  "h b = Some g \<Longrightarrow> h' b = Some g' \<Longrightarrow> (shape g = None \<longleftrightarrow> shape g' = None) \<Longrightarrow>
     \<exists>kd. Type b h = Done (kd, h) \<and> Type b h' = Done (kd, h')"
  by (cases g; cases g') (auto simp: Type_def)

lemma add_class:
  assumes "CompoundGraphic_add c k h = Done ((), h')" and "h' b = Some g'"
  shows "\<exists>g. h b = Some g \<and> (shape g = None \<longleftrightarrow> shape g' = None)"
  using assms
  by (auto simp: CompoundGraphic_add_def split: option.splits graphic.splits if_splits)

lemma move_class:
  assumes "move n c x y h = Done ((), h')" and "h' b = Some g'"
  shows "\<exists>g. h b = Some g \<and> (shape g = None \<longleftrightarrow> shape g' = None)"
proof -
  have "shape_of h' b = shape_of h b" using assms(1) by (rule move_shape)
  with assms(2) obtain g where "h b = Some g" "shape g = shape g'"
    by (cases "h b") (auto simp: shape_of_def)
  then show ?thesis by simp
qed

lemma remove_class:
  assumes "CompoundGraphic_remove n c p h = Done ((), h')" and "h' b = Some g'"
  shows "\<exists>g. h b = Some g \<and> (shape g = None \<longleftrightarrow> shape g' = None)"
proof -
  from assms(1) obtain cs where c: "h c = Some (CompoundGraphic cs)"
    by (auto simp: CompoundGraphic_remove_def split: option.splits graphic.splits)
  show ?thesis
  proof (cases "erase_first cs p")
    case None
    with assms c show ?thesis by (simp add: CompoundGraphic_remove_def)
  next
    case (Some cs')
    with assms(1) c have "destroy n p (h(c \<mapsto> CompoundGraphic cs')) = Done ((), h')"
      by (simp add: CompoundGraphic_remove_def)
    from destroy_sub [OF this, of b] assms(2)
    have "(h(c \<mapsto> CompoundGraphic cs')) b = Some g'" by auto
    with c show ?thesis by (cases "b = c") auto
  qed
qed

text \<open>
  C9: \<open>Type()\<close> on a live node returns, changes nothing, and tells the class the node
  was constructed as: the \<open>Leaf\<close> alternative for a \<open>Dot\<close> or a \<open>Circle\<close>, the
  \<open>Compound\<close> alternative for a \<open>CompoundGraphic\<close>. For every node that is live after
  an \<open>add\<close>, a \<open>remove\<close> or a \<open>move\<close> that returned, \<open>Type()\<close> gives after the call
  what it gave before. (\<open>draw\<close> works on the output stream only and hands back no store.)
\<close>

theorem kind_never_changes:
  "(h b = Some (Leaf l) \<longrightarrow> Type b h = Done (LeafPtr b, h))
   \<and> (h b = Some (CompoundGraphic cs) \<longrightarrow> Type b h = Done (CompoundPtr b, h))
   \<and> ((CompoundGraphic_add c k h = Done ((), h')
        \<or> CompoundGraphic_remove n c p h = Done ((), h')
        \<or> move n c x y h = Done ((), h'))
       \<and> h' b \<noteq> None \<longrightarrow>
       (\<exists>kd. Type b h = Done (kd, h) \<and> Type b h' = Done (kd, h')))"
proof (intro conjI impI)
  assume "h b = Some (Leaf l)"
  then show "Type b h = Done (LeafPtr b, h)" by (simp add: Type_def)
next
  assume "h b = Some (CompoundGraphic cs)"
  then show "Type b h = Done (CompoundPtr b, h)" by (simp add: Type_def)
next
  assume a: "(CompoundGraphic_add c k h = Done ((), h')
        \<or> CompoundGraphic_remove n c p h = Done ((), h')
        \<or> move n c x y h = Done ((), h'))
       \<and> h' b \<noteq> None"
  then obtain g' where g': "h' b = Some g'" by auto
  from a consider "CompoundGraphic_add c k h = Done ((), h')"
    | "CompoundGraphic_remove n c p h = Done ((), h')" | "move n c x y h = Done ((), h')"
    by blast
  then have "\<exists>g. h b = Some g \<and> (shape g = None \<longleftrightarrow> shape g' = None)"
  proof cases
    case 1
    then show ?thesis using g' by (rule add_class)
  next
    case 2
    then show ?thesis using g' by (rule remove_class)
  next
    case 3
    then show ?thesis using g' by (rule move_class)
  qed
  then obtain g where "h b = Some g" "shape g = None \<longleftrightarrow> shape g' = None" by auto
  with g' show "\<exists>kd. Type b h = Done (kd, h) \<and> Type b h' = Done (kd, h')"
    by (intro Type_agree)
qed

theorem kind_never_changes_witness:
  "([1 \<mapsto> CompoundGraphic [2, 3], 2 \<mapsto> Leaf (Dot 10 20), 3 \<mapsto> Leaf (Circle 5 5 3)] :: heap) 3
     = Some (Leaf (Circle 5 5 3))
   \<and> Type 3 [1 \<mapsto> CompoundGraphic [2, 3], 2 \<mapsto> Leaf (Dot 10 20), 3 \<mapsto> Leaf (Circle 5 5 3)]
     = Done (LeafPtr 3, [1 \<mapsto> CompoundGraphic [2, 3], 2 \<mapsto> Leaf (Dot 10 20),
                         3 \<mapsto> Leaf (Circle 5 5 3)])
   \<and> Type 1 [1 \<mapsto> CompoundGraphic [2, 3], 2 \<mapsto> Leaf (Dot 10 20), 3 \<mapsto> Leaf (Circle 5 5 3)]
     = Done (CompoundPtr 1, [1 \<mapsto> CompoundGraphic [2, 3], 2 \<mapsto> Leaf (Dot 10 20),
                             3 \<mapsto> Leaf (Circle 5 5 3)])
   \<and> CompoundGraphic_remove 2 1 2
        [1 \<mapsto> CompoundGraphic [2, 3], 2 \<mapsto> Leaf (Dot 10 20), 3 \<mapsto> Leaf (Circle 5 5 3)]
     = Done ((), [1 \<mapsto> CompoundGraphic [3], 3 \<mapsto> Leaf (Circle 5 5 3)])
   \<and> Type 1 [1 \<mapsto> CompoundGraphic [3], 3 \<mapsto> Leaf (Circle 5 5 3)]
     = Done (CompoundPtr 1, [1 \<mapsto> CompoundGraphic [3], 3 \<mapsto> Leaf (Circle 5 5 3)])"
proof -
  let ?h = "[1 \<mapsto> CompoundGraphic [2, 3], 2 \<mapsto> Leaf (Dot 10 20), 3 \<mapsto> Leaf (Circle 5 5 3)] :: heap"
  let ?h' = "[1 \<mapsto> CompoundGraphic [3], 3 \<mapsto> Leaf (Circle 5 5 3)] :: heap"
  have l: "?h 3 = Some (Leaf (Circle 5 5 3))" and c: "?h 1 = Some (CompoundGraphic [2, 3])"
    by simp_all
  have r: "CompoundGraphic_remove 2 1 2 ?h = Done ((), ?h')"
    by (auto simp: CompoundGraphic_remove_def numeral_2_eq_2)
  have live: "?h' 1 \<noteq> None" by simp
  have t3: "Type 3 ?h = Done (LeafPtr 3, ?h)"
    using kind_never_changes [where h = ?h and b = 3 and l = "Circle 5 5 3"] l by blast
  have t1: "Type 1 ?h = Done (CompoundPtr 1, ?h)"
    using kind_never_changes [where h = ?h and b = 1 and cs = "[2, 3]"] c by blast
  from kind_never_changes [where h = ?h and h' = ?h' and b = 1 and c = 1 and n = 2 and p = 2]
    r live
  obtain kd where "Type 1 ?h = Done (kd, ?h)" "Type 1 ?h' = Done (kd, ?h')" by blast
  with t1 have "Type 1 ?h' = Done (CompoundPtr 1, ?h')" by simp
  with l t3 t1 r show ?thesis by simp
qed

subsection \<open>C3: adding a container below itself\<close>

lemma has_child_shape:
  "shape_of h' a = shape_of h a \<Longrightarrow> has_child h' a b = has_child h a b"
  by (cases "h a"; cases "h' a"; cases "the (h a)"; cases "the (h' a)")
    (auto simp: has_child_def shape_of_def)

lemma has_child_compound:
  "has_child h a b \<Longrightarrow> \<exists>cs. h a = Some (CompoundGraphic cs) \<and> b \<in> set cs"
  by (auto simp: has_child_def split: option.splits graphic.splits)

lemma on_cycle_step:
  assumes "(has_child h)\<^sup>+\<^sup>+ a a"
  obtains cs b where "h a = Some (CompoundGraphic cs)" "b \<in> set cs" "(has_child h)\<^sup>+\<^sup>+ b b"
proof -
  from assms obtain b where ab: "has_child h a b" and ba: "(has_child h)\<^sup>*\<^sup>* b a"
    by (auto dest: tranclpD)
  from ba ab have "(has_child h)\<^sup>+\<^sup>+ b b" by (rule rtranclp_into_tranclp1)
  with has_child_compound [OF ab] that show thesis by blast
qed

text \<open>On a container that lies on a cycle no \<open>draw\<close> and no \<open>move\<close> returns, whatever the
  depth allowed.\<close>

lemma draw_on_cycle:
  "(has_child h)\<^sup>+\<^sup>+ a a \<Longrightarrow> draw n a h out \<noteq> Done r"
proof (induction n arbitrary: a out r)
  case 0
  show ?case by simp
next
  case (Suc n)
  from Suc.prems obtain cs b where a: "h a = Some (CompoundGraphic cs)" and b: "b \<in> set cs"
    and cyc: "(has_child h)\<^sup>+\<^sup>+ b b" by (rule on_cycle_step)
  show ?case
  proof
    assume "draw (Suc n) a h out = Done r"
    with a have "foreach cs (\<lambda>c. draw n c h) out = Done r" by simp
    from foreach_Done_elem [OF this, where P = "\<lambda>_. True" and b = b] b
    obtain t t' where "draw n b h t = Done ((), t')" by auto
    with Suc.IH [OF cyc] show False by blast
  qed
qed

lemma move_on_cycle:
  "(has_child h)\<^sup>+\<^sup>+ a a \<Longrightarrow> move n a x y h \<noteq> Done r"
proof (induction n arbitrary: a h r)
  case 0
  show ?case by simp
next
  case (Suc n)
  from Suc.prems obtain cs b where a: "h a = Some (CompoundGraphic cs)" and b: "b \<in> set cs"
    and cyc: "(has_child h)\<^sup>+\<^sup>+ b b" by (rule on_cycle_step)
  show ?case
  proof
    assume "move (Suc n) a x y h = Done r"
    with a have loop: "foreach cs (\<lambda>c. move n c x y) h = Done r" by simp
    have "\<exists>t t'. (\<forall>e. shape_of t e = shape_of h e) \<and> move n b x y t = Done ((), t')"
    proof (rule foreach_Done_elem [OF loop _ _ b])
      show "\<forall>e. shape_of h e = shape_of h e" by simp
    next
      fix c t t'
      assume "\<forall>e. shape_of t e = shape_of h e" and "move n c x y t = Done ((), t')"
      then show "\<forall>e. shape_of t' e = shape_of h e"
        using move_shape [of n c x y t t'] by simp
    qed
    then obtain t t' where same: "\<forall>e. shape_of t e = shape_of h e"
      and m: "move n b x y t = Done ((), t')" by blast
    have "has_child t e e' = has_child h e e'" for e e'
      using same by (intro has_child_shape) simp
    then have "has_child t = has_child h"
      by (intro ext)
    with cyc have "(has_child t)\<^sup>+\<^sup>+ b b" by simp
    from Suc.IH [OF this] m show False by blast
  qed
qed

lemma has_child_add:
  assumes "h c = Some (CompoundGraphic cs)" and "has_child h a b"
  shows "has_child (h(c \<mapsto> CompoundGraphic (cs @ [k]))) a b"
  using assms by (auto simp: has_child_def split: option.splits graphic.splits)

lemma reaches_after_add:
  assumes "(has_child h)\<^sup>*\<^sup>* a b" and "h c = Some (CompoundGraphic cs)"
  shows "(has_child (h(c \<mapsto> CompoundGraphic (cs @ [k]))))\<^sup>*\<^sup>* a b"
  using assms(1)
proof (induction rule: rtranclp_induct)
  case base
  show ?case by simp
next
  case (step y z)
  have "has_child (h(c \<mapsto> CompoundGraphic (cs @ [k]))) y z"
    using assms(2) step.hyps(2) by (rule has_child_add)
  with step.IH show ?case by (rule rtranclp.rtrancl_into_rtrancl)
qed

lemma cycle_after_add:
  assumes c: "h c = Some (CompoundGraphic cs)" and k: "(has_child h)\<^sup>*\<^sup>* k c"
  shows "(has_child (h(c \<mapsto> CompoundGraphic (cs @ [k]))))\<^sup>+\<^sup>+ c c"
proof -
  let ?h' = "h(c \<mapsto> CompoundGraphic (cs @ [k]))"
  have "(has_child ?h')\<^sup>*\<^sup>* k c" using k c by (rule reaches_after_add)
  moreover have "has_child ?h' c k" by (simp add: has_child_def)
  ultimately show ?thesis by (rule rtranclp_into_tranclp2 [rotated])
qed

text \<open>
  C3 as stated fails: a container can be added to itself. \<open>add\<close> returns as for any other
  node and reports no \<open>CycleDetected\<close>; the container at address 1 is then one of its own
  children, and \<open>draw\<close> on it does not return within any depth.
\<close>

theorem add_self_counterexample:
  "CompoundGraphic_add 1 1 [1 \<mapsto> CompoundGraphic []] = Done ((), [1 \<mapsto> CompoundGraphic [1]])
   \<and> (\<forall>n. draw n 1 [1 \<mapsto> CompoundGraphic [1]] [] = OutOfFuel)"
proof
  show "CompoundGraphic_add 1 1 [1 \<mapsto> CompoundGraphic []] = Done ((), [1 \<mapsto> CompoundGraphic [1]])"
    by (simp add: CompoundGraphic_add_def)
  have "draw n 1 [1 \<mapsto> CompoundGraphic [1]] out = OutOfFuel" for n out
    by (induction n arbitrary: out) simp_all
  then show "\<forall>n. draw n 1 [1 \<mapsto> CompoundGraphic [1]] [] = OutOfFuel" by blast
qed

text \<open>
  C3, amended: \<open>add\<close> checks nothing. Adding to a container \<open>c\<close> the node \<open>k\<close>, where \<open>k\<close>
  is \<open>c\<close> itself or a node that has \<open>c\<close> below it, returns like any other \<open>add\<close> and
  reports no condition; it leaves \<open>c\<close> on a cycle, and from then on neither \<open>draw\<close> nor
  \<open>move\<close> on \<open>c\<close> returns, however deep the recursion is allowed to go.
\<close>

theorem add_checks_no_cycle:
  assumes "h c = Some (CompoundGraphic cs)" and "(has_child h)\<^sup>*\<^sup>* k c"
  shows "CompoundGraphic_add c k h = Done ((), h(c \<mapsto> CompoundGraphic (cs @ [k])))
     \<and> (\<forall>n out r. draw n c (h(c \<mapsto> CompoundGraphic (cs @ [k]))) out \<noteq> Done r)
     \<and> (\<forall>n x y r. move n c x y (h(c \<mapsto> CompoundGraphic (cs @ [k]))) \<noteq> Done r)"
proof -
  have "(has_child (h(c \<mapsto> CompoundGraphic (cs @ [k]))))\<^sup>+\<^sup>+ c c"
    using assms by (rule cycle_after_add)
  then show ?thesis
    using assms(1) by (simp add: CompoundGraphic_add_def draw_on_cycle move_on_cycle)
qed

theorem add_checks_no_cycle_witness:
  "([1 \<mapsto> CompoundGraphic [2], 2 \<mapsto> CompoundGraphic []] :: heap) 2 = Some (CompoundGraphic [])
   \<and> (has_child [1 \<mapsto> CompoundGraphic [2], 2 \<mapsto> CompoundGraphic []])\<^sup>*\<^sup>* 1 2
   \<and> CompoundGraphic_add 2 1 [1 \<mapsto> CompoundGraphic [2], 2 \<mapsto> CompoundGraphic []]
       = Done ((), [1 \<mapsto> CompoundGraphic [2], 2 \<mapsto> CompoundGraphic [1]])
   \<and> (\<forall>n out r. draw n 2 [1 \<mapsto> CompoundGraphic [2], 2 \<mapsto> CompoundGraphic [1]] out \<noteq> Done r)
   \<and> (\<forall>n x y r. move n 2 x y [1 \<mapsto> CompoundGraphic [2], 2 \<mapsto> CompoundGraphic [1]] \<noteq> Done r)"
proof -
  let ?h = "[1 \<mapsto> CompoundGraphic [2], 2 \<mapsto> CompoundGraphic []] :: heap"
  let ?h' = "[1 \<mapsto> CompoundGraphic [2], 2 \<mapsto> CompoundGraphic [1]] :: heap"
  have c: "?h 2 = Some (CompoundGraphic [])" by simp
  have "has_child ?h 1 2" by (simp add: has_child_def)
  then have k: "(has_child ?h)\<^sup>*\<^sup>* 1 2" by (rule r_into_rtranclp)
  have h': "?h(2 \<mapsto> CompoundGraphic ([] @ [1])) = ?h'" by simp
  note inst = add_checks_no_cycle [OF c k, unfolded h']
  show ?thesis
    apply (rule conjI [OF c])
    apply (rule conjI [OF k])
    apply (rule inst)
    done
qed

end
